theory Spec2Isabelle
  imports Main
begin

section \<open>The CSS selector builder of \<^verbatim>\<open>src/05-objects-tasks.js\<close>\<close>

text \<open>
  The class \<^verbatim>\<open>SelectorChain\<close> is a mutable accumulator: five fields, two private
  checks that throw, six part-append methods that return \<^verbatim>\<open>this\<close>, \<^verbatim>\<open>combine\<close> and
  \<^verbatim>\<open>stringify\<close>. The object is a record. A method that only touches its receiver is a
  function from the receiver's state to the outcome of the call. A \<^verbatim>\<open>throw\<close> leaves the
  receiver as it was at the moment of the throw (a counter may already have been
  incremented), so the thrown outcome carries that state next to the error.

  The counters are JavaScript numbers that start at 0 and change by \<^verbatim>\<open>+= 1\<close> only; they
  are natural numbers here, and \<open>increment\<close> below is \<^verbatim>\<open>+= 1\<close> on such a number. The
  values are strings and are only ever concatenated.
\<close>

subsection \<open>Data\<close>

record SelectorChain =
  selectorChain :: string
  idCount :: nat
  elementCount :: nat
  pseudoElementCount :: nat
  selectorOrder :: nat

text \<open>
  The source throws plain \<^verbatim>\<open>Error\<close> objects told apart by their message. The two
  messages are the two constructors: \<open>DuplicatePartError\<close> is "Element, id and
  pseudo-element should not occur more then one time inside the selector",
  \<open>OrderViolationError\<close> is "Selector parts should be arranged in the following order
  ...".
\<close>

datatype error = DuplicatePartError | OrderViolationError

text \<open>
  The outcome of a method that returns \<^verbatim>\<open>this\<close>: \<open>Inr\<close> the receiver after the call, or
  \<open>Inl\<close> the error thrown together with the receiver as the throw left it.
\<close>

type_synonym outcome = "(error \<times> SelectorChain) + SelectorChain"

subsection \<open>Constructor and checks\<close>

text \<open>
  \<^verbatim>\<open>n += 1\<close> on a JavaScript number (an IEEE 754 double) that holds an integer: the sum
  is exact below \<open>2 ^ 53\<close>, and \<open>2 ^ 53 + 1\<close> is not a double and rounds back to
  \<open>2 ^ 53\<close>, so a counter that has reached \<open>2 ^ 53\<close> stays there. A counter starts at 0
  and changes by \<^verbatim>\<open>+= 1\<close> only, so it never holds a value above \<open>2 ^ 53\<close>
  (\<open>counters_in_range\<close> below).
\<close>

definition increment :: "nat \<Rightarrow> nat" where
  "increment n = (if n < 2 ^ 53 then n + 1 else n)"

definition constructor :: SelectorChain where
  "constructor =
     \<lparr>selectorChain = [], idCount = 0, elementCount = 0, pseudoElementCount = 0,
      selectorOrder = 0\<rparr>"

text \<open>The checks return \<open>None\<close> when they return normally and \<open>Some e\<close> when they throw.\<close>

definition checkSelectorsOrder :: "SelectorChain \<Rightarrow> nat \<Rightarrow> error option" where
  "checkSelectorsOrder this currentOrder =
     (if selectorOrder this > currentOrder then Some OrderViolationError else None)"

definition checkOccurence :: "SelectorChain \<Rightarrow> error option" where
  "checkOccurence this =
     (if idCount this > 1 \<or> pseudoElementCount this > 1 \<or> elementCount this > 1
      then Some DuplicatePartError else None)"

subsection \<open>The six part-append methods\<close>

definition element :: "string \<Rightarrow> SelectorChain \<Rightarrow> outcome" where
  "element v this =
     (let t1 = this\<lparr>elementCount := increment (elementCount this)\<rparr> in
      case checkOccurence t1 of
        Some e \<Rightarrow> Inl (e, t1)
      | None \<Rightarrow>
          (case checkSelectorsOrder t1 1 of
             Some e \<Rightarrow> Inl (e, t1)
           | None \<Rightarrow> Inr (t1\<lparr>selectorChain := selectorChain t1 @ v, selectorOrder := 1\<rparr>)))"

definition id_part :: "string \<Rightarrow> SelectorChain \<Rightarrow> outcome" where
  "id_part v this =
     (let t1 = this\<lparr>idCount := increment (idCount this)\<rparr> in
      case checkOccurence t1 of
        Some e \<Rightarrow> Inl (e, t1)
      | None \<Rightarrow>
          (case checkSelectorsOrder t1 2 of
             Some e \<Rightarrow> Inl (e, t1)
           | None \<Rightarrow>
               Inr (t1\<lparr>selectorChain := selectorChain t1 @ ''#'' @ v, selectorOrder := 2\<rparr>)))"

definition class_part :: "string \<Rightarrow> SelectorChain \<Rightarrow> outcome" where
  "class_part v this =
     (case checkSelectorsOrder this 3 of
        Some e \<Rightarrow> Inl (e, this)
      | None \<Rightarrow>
          Inr (this\<lparr>selectorChain := selectorChain this @ ''.'' @ v, selectorOrder := 3\<rparr>))"

definition attr :: "string \<Rightarrow> SelectorChain \<Rightarrow> outcome" where
  "attr v this =
     (case checkSelectorsOrder this 4 of
        Some e \<Rightarrow> Inl (e, this)
      | None \<Rightarrow>
          Inr (this\<lparr>selectorChain := selectorChain this @ ''['' @ v @ '']'',
                    selectorOrder := 4\<rparr>))"

definition pseudoClass :: "string \<Rightarrow> SelectorChain \<Rightarrow> outcome" where
  "pseudoClass v this =
     (case checkSelectorsOrder this 5 of
        Some e \<Rightarrow> Inl (e, this)
      | None \<Rightarrow>
          Inr (this\<lparr>selectorChain := selectorChain this @ '':'' @ v, selectorOrder := 5\<rparr>))"

text \<open>
  \<^verbatim>\<open>pseudoElement\<close> is the one singleton method that checks the order before it
  increments its counter.
\<close>

definition pseudoElement :: "string \<Rightarrow> SelectorChain \<Rightarrow> outcome" where
  "pseudoElement v this =
     (case checkSelectorsOrder this 6 of
        Some e \<Rightarrow> Inl (e, this)
      | None \<Rightarrow>
          (let t1 = this\<lparr>pseudoElementCount := increment (pseudoElementCount this)\<rparr> in
           case checkOccurence t1 of
             Some e \<Rightarrow> Inl (e, t1)
           | None \<Rightarrow>
               Inr (t1\<lparr>selectorChain := selectorChain t1 @ ''::'' @ v, selectorOrder := 6\<rparr>)))"

subsection \<open>combine and stringify\<close>

text \<open>
  \<^verbatim>\<open>combine\<close> reads the text of its two arguments and overwrites the text of the
  receiver. On records the three objects are three values; the store below says what
  happens when they are the same object.
\<close>

definition combine :: "SelectorChain \<Rightarrow> SelectorChain \<Rightarrow> string \<Rightarrow> SelectorChain \<Rightarrow> SelectorChain"
  where
  "combine this selector1 combinator selector2 =
     this\<lparr>selectorChain :=
       selectorChain selector1 @ '' '' @ combinator @ '' '' @ selectorChain selector2\<rparr>"

text \<open>\<^verbatim>\<open>stringify\<close> returns the text and leaves the receiver with an empty text.\<close>

definition stringify :: "SelectorChain \<Rightarrow> string \<times> SelectorChain" where
  "stringify this = (selectorChain this, this\<lparr>selectorChain := []\<rparr>)"

subsection \<open>Calls and chains\<close>

text \<open>
  A part-append call is the method called and its argument. \<open>append_part\<close> dispatches to the
  method; \<open>chain\<close> is a fluent chain \<^verbatim>\<open>b.m1(v1).m2(v2)...\<close>, which stops at the first
  throw.
\<close>

datatype kind = KElement | KId | KClass | KAttr | KPseudoClass | KPseudoElement

type_synonym part = "kind \<times> string"

fun append_part :: "part \<Rightarrow> SelectorChain \<Rightarrow> outcome" where
  "append_part (KElement, v) this = element v this"
| "append_part (KId, v) this = id_part v this"
| "append_part (KClass, v) this = class_part v this"
| "append_part (KAttr, v) this = attr v this"
| "append_part (KPseudoClass, v) this = pseudoClass v this"
| "append_part (KPseudoElement, v) this = pseudoElement v this"

fun chain :: "part list \<Rightarrow> SelectorChain \<Rightarrow> outcome" where
  "chain [] this = Inr this"
| "chain (p # ps) this =
     (case append_part p this of Inl e \<Rightarrow> Inl e | Inr this' \<Rightarrow> chain ps this')"

text \<open>What a call threw, if it threw.\<close>

fun thrown :: "outcome \<Rightarrow> error option" where
  "thrown (Inl (e, _)) = Some e"
| "thrown (Inr _) = None"

text \<open>The receiver after a call, whether it returned or threw.\<close>

fun receiver :: "outcome \<Rightarrow> SelectorChain" where
  "receiver (Inl (_, this)) = this"
| "receiver (Inr this) = this"

subsection \<open>The store: objects by reference\<close>

text \<open>
  \<^verbatim>\<open>combine(selector1, combinator, selector2)\<close> receives references, and nothing
  keeps a caller from passing the receiver itself. The store is the list of the objects
  allocated so far, a reference is an index into it, and \<^verbatim>\<open>new SelectorChain()\<close>
  allocates at the end. A reference outside the store is not a value a JavaScript
  program can hold: the model answers \<open>None\<close> there.
\<close>

type_synonym ref = nat

type_synonym store = "SelectorChain list"

definition new_SelectorChain :: "store \<Rightarrow> ref \<times> store" where
  "new_SelectorChain h = (length h, h @ [constructor])"

text \<open>The method returns \<^verbatim>\<open>this\<close>: the reference it was called on.\<close>

definition combine_ref :: "store \<Rightarrow> ref \<Rightarrow> ref \<Rightarrow> string \<Rightarrow> ref \<Rightarrow> (ref \<times> store) option"
  where
  "combine_ref h this selector1 combinator selector2 =
     (if this < length h \<and> selector1 < length h \<and> selector2 < length h
      then Some (this, h[this := combine (h ! this) (h ! selector1) combinator (h ! selector2)])
      else None)"

subsection \<open>The facade\<close>

text \<open>Every entry of \<^verbatim>\<open>cssSelectorBuilder\<close> builds a new object and calls one method on it.\<close>

definition cssSelectorBuilder_element :: "string \<Rightarrow> outcome" where
  "cssSelectorBuilder_element v = element v constructor"

definition cssSelectorBuilder_id :: "string \<Rightarrow> outcome" where
  "cssSelectorBuilder_id v = id_part v constructor"

definition cssSelectorBuilder_class :: "string \<Rightarrow> outcome" where
  "cssSelectorBuilder_class v = class_part v constructor"

definition cssSelectorBuilder_attr :: "string \<Rightarrow> outcome" where
  "cssSelectorBuilder_attr v = attr v constructor"

definition cssSelectorBuilder_pseudoClass :: "string \<Rightarrow> outcome" where
  "cssSelectorBuilder_pseudoClass v = pseudoClass v constructor"

definition cssSelectorBuilder_pseudoElement :: "string \<Rightarrow> outcome" where
  "cssSelectorBuilder_pseudoElement v = pseudoElement v constructor"

definition cssSelectorBuilder_combine :: "store \<Rightarrow> ref \<Rightarrow> string \<Rightarrow> ref \<Rightarrow> (ref \<times> store) option"
  where
  "cssSelectorBuilder_combine h s1 combinator s2 =
     (case new_SelectorChain h of
        (this, h1) \<Rightarrow> combine_ref h1 this s1 combinator s2)"

subsection \<open>The table of the specification\<close>

text \<open>
  The rank and the rendered form of each part kind, as the specification's table gives
  them. The methods above do not use these two functions; the theorems compare them.
\<close>

fun rank :: "kind \<Rightarrow> nat" where
  "rank KElement = 1"
| "rank KId = 2"
| "rank KClass = 3"
| "rank KAttr = 4"
| "rank KPseudoClass = 5"
| "rank KPseudoElement = 6"

fun singleton :: "kind \<Rightarrow> bool" where
  "singleton KElement = True"
| "singleton KId = True"
| "singleton KPseudoElement = True"
| "singleton _ = False"

fun render :: "part \<Rightarrow> string" where
  "render (KElement, v) = v"
| "render (KId, v) = ''#'' @ v"
| "render (KClass, v) = ''.'' @ v"
| "render (KAttr, v) = ''['' @ v @ '']''"
| "render (KPseudoClass, v) = '':'' @ v"
| "render (KPseudoElement, v) = ''::'' @ v"

text \<open>The counter that belongs to a singleton kind (0 for the other kinds, which have none).\<close>

fun counter :: "kind \<Rightarrow> SelectorChain \<Rightarrow> nat" where
  "counter KElement this = elementCount this"
| "counter KId this = idCount this"
| "counter KPseudoElement this = pseudoElementCount this"
| "counter _ this = 0"

text \<open>The receiver with the counter of a singleton kind incremented.\<close>

fun incremented :: "kind \<Rightarrow> SelectorChain \<Rightarrow> SelectorChain" where
  "incremented KElement this = this\<lparr>elementCount := increment (elementCount this)\<rparr>"
| "incremented KId this = this\<lparr>idCount := increment (idCount this)\<rparr>"
| "incremented KPseudoElement this =
     this\<lparr>pseudoElementCount := increment (pseudoElementCount this)\<rparr>"
| "incremented _ this = this"

text \<open>Some singleton counter exceeds 1: the condition \<^verbatim>\<open>checkOccurence\<close> tests.\<close>

definition exceeded :: "SelectorChain \<Rightarrow> bool" where
  "exceeded this = (idCount this > 1 \<or> pseudoElementCount this > 1 \<or> elementCount this > 1)"

text \<open>The values a counter can hold: every counter is at most \<open>2 ^ 53\<close>.\<close>

definition counters_in_range :: "SelectorChain \<Rightarrow> bool" where
  "counters_in_range this =
     (idCount this \<le> 2 ^ 53 \<and> elementCount this \<le> 2 ^ 53 \<and> pseudoElementCount this \<le> 2 ^ 53)"

text \<open>
  The state the two checks read: the three counters and the order. The text is the rest
  of the object.
\<close>

definition validation_state :: "SelectorChain \<Rightarrow> nat \<times> nat \<times> nat \<times> nat" where
  "validation_state this =
     (idCount this, elementCount this, pseudoElementCount this, selectorOrder this)"

text \<open>
  Any call a caller can make on a builder it holds: a part append, \<^verbatim>\<open>combine\<close> with two
  builders (given as they are at the call) and a combinator, or \<^verbatim>\<open>stringify\<close>.
  \<open>after_call\<close> is the receiver after the call, whether it returned or threw (a caller
  that catches the error keeps the object); \<open>after_calls\<close> is the receiver after a
  sequence of calls made one by one on the same object.
\<close>

datatype call = Append part | Combine SelectorChain string SelectorChain | Stringify

fun after_call :: "call \<Rightarrow> SelectorChain \<Rightarrow> SelectorChain" where
  "after_call (Append p) this = receiver (append_part p this)"
| "after_call (Combine selector1 combinator selector2) this =
     combine this selector1 combinator selector2"
| "after_call Stringify this = snd (stringify this)"

fun after_calls :: "call list \<Rightarrow> SelectorChain \<Rightarrow> SelectorChain" where
  "after_calls [] this = this"
| "after_calls (c # cs) this = after_calls cs (after_call c this)"

section \<open>Basic facts about one call\<close>

lemmas method_defs =
  element_def id_part_def class_part_def attr_def pseudoClass_def pseudoElement_def
  checkOccurence_def checkSelectorsOrder_def increment_def

text \<open>A call that returns has appended the rendered form and set the order to the rank.\<close>

lemma append_Inr_text:
  "append_part (k, v) this = Inr this' \<Longrightarrow> selectorChain this' = selectorChain this @ render (k, v)"
  by (cases k) (auto simp: method_defs Let_def split: if_splits)

lemma append_Inr_order:
  "append_part (k, v) this = Inr this' \<Longrightarrow> selectorOrder this' = rank k"
  by (cases k) (auto simp: method_defs Let_def split: if_splits)

lemma append_Inr_was_ordered:
  "append_part (k, v) this = Inr this' \<Longrightarrow> selectorOrder this \<le> rank k"
  by (cases k) (auto simp: method_defs Let_def split: if_splits)

text \<open>A call that throws has touched neither the text nor the order.\<close>

lemma append_Inl_text:
  "append_part (k, v) this = Inl (e, this') \<Longrightarrow> selectorChain this' = selectorChain this"
  by (cases k) (auto simp: method_defs Let_def split: if_splits)

lemma append_Inl_order:
  "append_part (k, v) this = Inl (e, this') \<Longrightarrow> selectorOrder this' = selectorOrder this"
  by (cases k) (auto simp: method_defs Let_def split: if_splits)

section \<open>Chains of part appends\<close>

lemma append_Inr_counter:
  "append_part (k, v) this = Inr this' \<Longrightarrow>
   counter k' this' = counter k' this + (if k' = k \<and> singleton k then 1 else 0)"
  by (cases k; cases k') (auto simp: method_defs Let_def split: if_splits)

lemma chain_counter:
  "chain ps this = Inr this' \<Longrightarrow> singleton k \<Longrightarrow>
   counter k this' = counter k this + count_list (map fst ps) k"
proof (induction ps arbitrary: this)
  case Nil
  then show ?case by simp
next
  case (Cons p ps)
  obtain k0 v0 where p: "p = (k0, v0)" by (cases p)
  from Cons.prems(1) obtain t1 where
    t1: "append_part (k0, v0) this = Inr t1" and rest: "chain ps t1 = Inr this'"
    by (auto simp: p split: sum.splits)
  have "counter k this' = counter k t1 + count_list (map fst ps) k"
    using Cons.IH [OF rest Cons.prems(2)] .
  moreover have "counter k t1 = counter k this + (if k = k0 \<and> singleton k0 then 1 else 0)"
    using append_Inr_counter [OF t1] .
  ultimately show ?case using Cons.prems(2) by (auto simp: p)
qed

lemma chain_text:
  "chain ps this = Inr this' \<Longrightarrow> selectorChain this' = selectorChain this @ concat (map render ps)"
proof (induction ps arbitrary: this)
  case Nil
  then show ?case by simp
next
  case (Cons p ps)
  obtain k0 v0 where p: "p = (k0, v0)" by (cases p)
  from Cons.prems obtain t1 where
    t1: "append_part (k0, v0) this = Inr t1" and rest: "chain ps t1 = Inr this'"
    by (auto simp: p split: sum.splits)
  show ?case
    using Cons.IH [OF rest] append_Inr_text [OF t1] by (simp add: p)
qed

lemma append_order_le:
  "selectorOrder this \<le> 6 \<Longrightarrow> selectorOrder (receiver (append_part (k, v) this)) \<le> 6"
  by (cases k) (auto simp: method_defs Let_def split: if_splits)

lemma chain_order_le:
  "chain ps this = Inr this' \<Longrightarrow> selectorOrder this \<le> 6 \<Longrightarrow> selectorOrder this' \<le> 6"
proof (induction ps arbitrary: this)
  case Nil
  then show ?case by simp
next
  case (Cons p ps)
  obtain k0 v0 where p: "p = (k0, v0)" by (cases p)
  from Cons.prems(1) obtain t1 where
    t1: "append_part (k0, v0) this = Inr t1" and rest: "chain ps t1 = Inr this'"
    by (auto simp: p split: sum.splits)
  have "selectorOrder t1 \<le> 6"
    using append_order_le [OF Cons.prems(2), of k0 v0] t1 by simp
  then show ?case using Cons.IH [OF rest] by simp
qed

lemma append_returns:
  assumes "selectorOrder this \<le> rank k"
    and "elementCount this + (if k = KElement then 1 else 0) \<le> 1"
    and "idCount this + (if k = KId then 1 else 0) \<le> 1"
    and "pseudoElementCount this + (if k = KPseudoElement then 1 else 0) \<le> 1"
  shows "\<exists>this'. append_part (k, v) this = Inr this'"
  using assms by (cases k) (auto simp: method_defs Let_def)

lemma chain_returns:
  assumes "sorted (map (\<lambda>p. rank (fst p)) ps)"
    and "\<forall>p \<in> set ps. selectorOrder this \<le> rank (fst p)"
    and "elementCount this + count_list (map fst ps) KElement \<le> 1"
    and "idCount this + count_list (map fst ps) KId \<le> 1"
    and "pseudoElementCount this + count_list (map fst ps) KPseudoElement \<le> 1"
  shows "\<exists>this'. chain ps this = Inr this'"
  using assms
proof (induction ps arbitrary: this)
  case Nil
  then show ?case by simp
next
  case (Cons p ps)
  obtain k0 v0 where p: "p = (k0, v0)" by (cases p)
  have "\<exists>t1. append_part (k0, v0) this = Inr t1"
    using Cons.prems(2-5) by (intro append_returns) (auto simp: p split: if_splits)
  then obtain t1 where t1: "append_part (k0, v0) this = Inr t1" ..
  have ord: "selectorOrder t1 = rank k0" using append_Inr_order [OF t1] .
  have c: "counter k' t1 = counter k' this + (if k' = k0 \<and> singleton k0 then 1 else 0)" for k'
    using append_Inr_counter [OF t1] .
  have "\<exists>this'. chain ps t1 = Inr this'"
  proof (rule Cons.IH)
    show "sorted (map (\<lambda>p. rank (fst p)) ps)" using Cons.prems(1) by simp
    show "\<forall>q \<in> set ps. selectorOrder t1 \<le> rank (fst q)"
      using Cons.prems(1) ord by (auto simp: p)
    show "elementCount t1 + count_list (map fst ps) KElement \<le> 1"
      using c [of KElement] Cons.prems(3) by (auto simp: p split: if_splits)
    show "idCount t1 + count_list (map fst ps) KId \<le> 1"
      using c [of KId] Cons.prems(4) by (auto simp: p split: if_splits)
    show "pseudoElementCount t1 + count_list (map fst ps) KPseudoElement \<le> 1"
      using c [of KPseudoElement] Cons.prems(5) by (auto simp: p split: if_splits)
  qed
  then show ?case using t1 by (simp add: p)
qed

text \<open>C1: a chain of part appends on a freshly constructed builder whose ranks never
  decrease and in which no singleton kind (type, id, pseudo-element) occurs more than once
  returns at every call, and \<^verbatim>\<open>stringify()\<close> then returns the rendered forms of the parts,
  concatenated in call order with nothing between them.\<close>

theorem chain_stringify:
  assumes "sorted (map (\<lambda>p. rank (fst p)) ps)"
    and "count_list (map fst ps) KElement \<le> 1"
    and "count_list (map fst ps) KId \<le> 1"
    and "count_list (map fst ps) KPseudoElement \<le> 1"
  shows "\<exists>this. chain ps constructor = Inr this \<and>
           fst (stringify this) = concat (map render ps)"
proof -
  have "\<exists>this. chain ps constructor = Inr this"
    using assms by (intro chain_returns) (simp_all add: constructor_def)
  then obtain this where run: "chain ps constructor = Inr this" ..
  have "selectorChain this = concat (map render ps)"
    using chain_text [OF run] by (simp add: constructor_def)
  then show ?thesis using run by (simp add: stringify_def)
qed

text \<open>The example of the comment in the source: \<^verbatim>\<open>id('main').class('container').class('editable')\<close>.\<close>

theorem chain_stringify_witness:
  "sorted (map (\<lambda>p. rank (fst p)) [(KId, ''main''), (KClass, ''container''), (KClass, ''editable'')]) \<and>
   count_list (map fst [(KId, ''main''), (KClass, ''container''), (KClass, ''editable'')]) KElement \<le> 1 \<and>
   count_list (map fst [(KId, ''main''), (KClass, ''container''), (KClass, ''editable'')]) KId \<le> 1 \<and>
   count_list (map fst [(KId, ''main''), (KClass, ''container''), (KClass, ''editable'')]) KPseudoElement \<le> 1 \<and>
   (\<exists>this. chain [(KId, ''main''), (KClass, ''container''), (KClass, ''editable'')] constructor = Inr this \<and>
      fst (stringify this) = ''#main.container.editable'')"
  using chain_stringify [of "[(KId, ''main''), (KClass, ''container''), (KClass, ''editable'')]"]
  by simp

text \<open>The second example: \<^verbatim>\<open>element('a').attr('href$=".png"').pseudoClass('focus')\<close>.\<close>

lemma chain_example_attr:
  \<open>chain [(KElement, ''a''), (KAttr, ''href$=".png"''), (KPseudoClass, ''focus'')] constructor =
     Inr \<lparr>selectorChain = ''a[href$=".png"]:focus'', idCount = 0, elementCount = 1,
          pseudoElementCount = 0, selectorOrder = 5\<rparr>\<close>
  by (simp add: method_defs constructor_def)

section \<open>The first call on a new builder\<close>

text \<open>The six unary entries of the facade are the six part appends on a new builder.\<close>

lemma facade_appends:
  "cssSelectorBuilder_element v = append_part (KElement, v) constructor"
  "cssSelectorBuilder_id v = append_part (KId, v) constructor"
  "cssSelectorBuilder_class v = append_part (KClass, v) constructor"
  "cssSelectorBuilder_attr v = append_part (KAttr, v) constructor"
  "cssSelectorBuilder_pseudoClass v = append_part (KPseudoClass, v) constructor"
  "cssSelectorBuilder_pseudoElement v = append_part (KPseudoElement, v) constructor"
  by (simp_all add: cssSelectorBuilder_element_def cssSelectorBuilder_id_def
      cssSelectorBuilder_class_def cssSelectorBuilder_attr_def
      cssSelectorBuilder_pseudoClass_def cssSelectorBuilder_pseudoElement_def)

text \<open>C10: on a freshly constructed builder the first part append, of any kind and with any
  value, returns: no error is raised.\<close>

theorem first_append_succeeds:
  "\<exists>this'. append_part (k, v) constructor = Inr this'"
  by (cases k) (simp_all add: method_defs constructor_def Let_def)

section \<open>Singleton parts\<close>

lemma constructor_counter: "counter k constructor = 0"
  by (cases k) (simp_all add: constructor_def)

lemma singleton_throws:
  assumes "singleton k" and "1 \<le> counter k this" and "selectorOrder this \<le> 6"
  shows "append_part (k, v) this = Inl (DuplicatePartError, incremented k this)"
  using assms by (cases k) (auto simp: method_defs Let_def)

lemma incremented_text: "selectorChain (incremented k this) = selectorChain this"
  by (cases k) simp_all

text \<open>C2: after a chain on a new builder that already holds a type part, an id part or a
  pseudo-element part, wherever in the chain it stands, appending a part of that same
  singleton kind throws \<open>DuplicatePartError\<close>, and the text of the builder is the text it
  had before the call: the rendered form of the offending part is not appended.\<close>

theorem second_singleton_throws:
  assumes "chain ps constructor = Inr this"
    and "singleton k"
    and "k \<in> set (map fst ps)"
  shows "\<exists>this'. append_part (k, v) this = Inl (DuplicatePartError, this') \<and>
           selectorChain this' = selectorChain this"
proof -
  have "counter k this = count_list (map fst ps) k"
    using chain_counter [OF assms(1,2)] by (simp add: constructor_counter)
  moreover have "count_list (map fst ps) k \<noteq> 0"
    using assms(3) count_list_0_iff [of "map fst ps" k] by blast
  ultimately have one: "1 \<le> counter k this" by simp
  have "selectorOrder this \<le> 6"
    using chain_order_le [OF assms(1)] by (simp add: constructor_def)
  then have "append_part (k, v) this = Inl (DuplicatePartError, incremented k this)"
    using assms(2) one by (intro singleton_throws)
  then show ?thesis by (simp add: incremented_text)
qed

theorem second_singleton_throws_witness:
  "chain [(KElement, ''div''), (KClass, ''a'')] constructor =
     Inr \<lparr>selectorChain = ''div.a'', idCount = 0, elementCount = 1, pseudoElementCount = 0,
          selectorOrder = 3\<rparr> \<and>
   singleton KElement \<and>
   KElement \<in> set (map fst [(KElement, ''div''), (KClass, ''a'')]) \<and>
   (\<exists>this'. append_part (KElement, ''p'')
        \<lparr>selectorChain = ''div.a'', idCount = 0, elementCount = 1, pseudoElementCount = 0,
         selectorOrder = 3\<rparr> = Inl (DuplicatePartError, this') \<and>
      selectorChain this' = ''div.a'')"
proof -
  have run: "chain [(KElement, ''div''), (KClass, ''a'')] constructor =
     Inr \<lparr>selectorChain = ''div.a'', idCount = 0, elementCount = 1, pseudoElementCount = 0,
          selectorOrder = 3\<rparr>"
    by (simp add: method_defs constructor_def)
  have k: "singleton KElement" by simp
  have m: "KElement \<in> set (map fst [(KElement, ''div''), (KClass, ''a'')])" by simp
  show ?thesis
    using run k m second_singleton_throws [OF run k m, of "''p''"] by simp
qed

section \<open>What a failing call leaves behind\<close>

text \<open>C6: a part append that throws (either error) leaves the text of the builder as it
  was, which after a chain on a new builder is exactly the rendered forms of the parts of
  that chain, and leaves \<^verbatim>\<open>selectorOrder\<close> as it was.\<close>

theorem failed_append_keeps_text:
  assumes "append_part (k, v) this = Inl (e, this')"
  shows "selectorChain this' = selectorChain this \<and>
         selectorOrder this' = selectorOrder this \<and>
         (\<forall>ps. chain ps constructor = Inr this \<longrightarrow>
            selectorChain this' = concat (map render ps))"
proof -
  have t: "selectorChain this' = selectorChain this"
    using append_Inl_text [OF assms] .
  have "selectorChain this = concat (map render ps)" if "chain ps constructor = Inr this" for ps
    using chain_text [OF that] by (simp add: constructor_def)
  then show ?thesis
    using t append_Inl_order [OF assms] by simp
qed

theorem failed_append_keeps_text_witness:
  "append_part (KClass, ''c'')
     \<lparr>selectorChain = ''[x]'', idCount = 0, elementCount = 0, pseudoElementCount = 0,
      selectorOrder = 4\<rparr> =
   Inl (OrderViolationError,
     \<lparr>selectorChain = ''[x]'', idCount = 0, elementCount = 0, pseudoElementCount = 0,
      selectorOrder = 4\<rparr>) \<and>
   chain [(KAttr, ''x'')] constructor =
     Inr \<lparr>selectorChain = ''[x]'', idCount = 0, elementCount = 0, pseudoElementCount = 0,
          selectorOrder = 4\<rparr> \<and>
   ''[x]'' = concat (map render [(KAttr, ''x'')])"
proof -
  let ?a = "\<lparr>selectorChain = ''[x]'', idCount = 0, elementCount = 0, pseudoElementCount = 0,
      selectorOrder = 4\<rparr>"
  have thr: "append_part (KClass, ''c'') ?a = Inl (OrderViolationError, ?a)"
    by (simp add: method_defs)
  have run: "chain [(KAttr, ''x'')] constructor = Inr ?a"
    by (simp add: method_defs constructor_def)
  show ?thesis
    using thr run failed_append_keeps_text [OF thr] by simp
qed

section \<open>The order check\<close>

lemma lower_rank_thrown:
  assumes "rank k < selectorOrder this"
  shows "thrown (append_part (k, v) this) =
           Some (if (k = KElement \<or> k = KId) \<and> exceeded (incremented k this)
                 then DuplicatePartError else OrderViolationError)"
  using assms by (cases k) (auto simp: method_defs exceeded_def Let_def)

lemma higher_rank_not_order:
  assumes "selectorOrder this \<le> rank k"
  shows "checkSelectorsOrder this (rank k) = None \<and>
         thrown (append_part (k, v) this) \<noteq> Some OrderViolationError"
  using assms by (cases k) (auto simp: method_defs Let_def)

text \<open>C3, as the code has it: appending a part whose rank is strictly less than the rank
  of the most recently appended part always throws. It throws \<open>DuplicatePartError\<close> when the
  part is a type or id part and a singleton counter exceeds 1 once its own counter is
  incremented (the occurrence check of these two methods runs before their order check),
  and \<open>OrderViolationError\<close> in every other case. Appending a part of equal or greater
  rank passes the order check and never throws \<open>OrderViolationError\<close>.\<close>

theorem lower_rank_throws:
  assumes "append_part (q, w) this0 = Inr this"
  shows "(rank k < rank q \<longrightarrow>
            thrown (append_part (k, v) this) =
              Some (if (k = KElement \<or> k = KId) \<and> exceeded (incremented k this)
                    then DuplicatePartError else OrderViolationError)) \<and>
         (rank q \<le> rank k \<longrightarrow>
            checkSelectorsOrder this (rank k) = None \<and>
            thrown (append_part (k, v) this) \<noteq> Some OrderViolationError)"
proof -
  have ord: "selectorOrder this = rank q"
    using append_Inr_order [OF assms] .
  show ?thesis
    using lower_rank_thrown [of k this v] higher_rank_not_order [of this k v]
    by (simp add: ord)
qed

text \<open>A class part after an attribute part throws \<open>OrderViolationError\<close>; a class part after
  a class part returns.\<close>

theorem lower_rank_throws_witness:
  "append_part (KAttr, ''x'') constructor =
     Inr \<lparr>selectorChain = ''[x]'', idCount = 0, elementCount = 0, pseudoElementCount = 0,
          selectorOrder = 4\<rparr> \<and>
   rank KClass < rank KAttr \<and>
   thrown (append_part (KClass, ''c'')
     \<lparr>selectorChain = ''[x]'', idCount = 0, elementCount = 0, pseudoElementCount = 0,
      selectorOrder = 4\<rparr>) = Some OrderViolationError \<and>
   append_part (KClass, ''a'') constructor =
     Inr \<lparr>selectorChain = ''.a'', idCount = 0, elementCount = 0, pseudoElementCount = 0,
          selectorOrder = 3\<rparr> \<and>
   rank KClass \<le> rank KClass \<and>
   append_part (KClass, ''b'')
     \<lparr>selectorChain = ''.a'', idCount = 0, elementCount = 0, pseudoElementCount = 0,
      selectorOrder = 3\<rparr> =
     Inr \<lparr>selectorChain = ''.a.b'', idCount = 0, elementCount = 0, pseudoElementCount = 0,
          selectorOrder = 3\<rparr>"
proof -
  let ?a = "\<lparr>selectorChain = ''[x]'', idCount = 0, elementCount = 0, pseudoElementCount = 0,
      selectorOrder = 4\<rparr>"
  have a: "append_part (KAttr, ''x'') constructor = Inr ?a"
    by (simp add: method_defs constructor_def)
  have lt: "rank KClass < rank KAttr" by simp
  have "thrown (append_part (KClass, ''c'') ?a) = Some OrderViolationError"
    using lower_rank_throws [OF a, of KClass "''c''"] lt by (simp add: exceeded_def)
  then show ?thesis
    using a by (simp add: method_defs constructor_def)
qed

text \<open>Without the exception for type and id parts the statement fails:
  \<^verbatim>\<open>element('a').id('b').element('c')\<close> appends
  a part of rank 1 after a part of rank 2, and the error is \<open>DuplicatePartError\<close>.\<close>

theorem lower_rank_throws_counterexample:
  "chain [(KElement, ''a''), (KId, ''b'')] constructor =
     Inr \<lparr>selectorChain = ''a#b'', idCount = 1, elementCount = 1, pseudoElementCount = 0,
          selectorOrder = 2\<rparr> \<and>
   rank KElement < rank KId \<and>
   append_part (KElement, ''c'')
     \<lparr>selectorChain = ''a#b'', idCount = 1, elementCount = 1, pseudoElementCount = 0,
      selectorOrder = 2\<rparr> =
     Inl (DuplicatePartError,
       \<lparr>selectorChain = ''a#b'', idCount = 1, elementCount = 2, pseudoElementCount = 0,
        selectorOrder = 2\<rparr>) \<and>
   thrown (append_part (KElement, ''c'')
     \<lparr>selectorChain = ''a#b'', idCount = 1, elementCount = 1, pseudoElementCount = 0,
      selectorOrder = 2\<rparr>) \<noteq> Some OrderViolationError"
  by (simp add: method_defs constructor_def)

section \<open>The occurrence check\<close>

lemma increment_ge: "n \<le> increment n"
  by (simp add: increment_def)

lemma increment_exact: "n < 2 ^ 53 \<Longrightarrow> increment n = n + 1"
  by (simp add: increment_def)

lemma increment_in_range: "n \<le> 2 ^ 53 \<Longrightarrow> increment n \<le> 2 ^ 53"
  by (simp add: increment_def)

lemma singleton_counter_incremented:
  assumes "singleton k" and "selectorOrder this \<le> 6"
  shows "counter k (receiver (append_part (k, v) this)) = increment (counter k this)"
  using assms
  by (cases k)
     (auto simp: element_def id_part_def pseudoElement_def checkOccurence_def
        checkSelectorsOrder_def Let_def)

lemma singleton_thrown_iff:
  assumes "singleton k" and "selectorOrder this \<le> 6"
  shows "thrown (append_part (k, v) this) = Some DuplicatePartError \<longleftrightarrow>
         exceeded (incremented k this)"
  using assms by (cases k) (auto simp: method_defs exceeded_def Let_def)

lemma singleton_thrown_receiver:
  assumes "singleton k" and "selectorOrder this \<le> 6" and "exceeded (incremented k this)"
  shows "append_part (k, v) this = Inl (DuplicatePartError, incremented k this)"
  using assms by (cases k) (auto simp: method_defs exceeded_def Let_def)

lemma exceeded_incremented: "exceeded this \<Longrightarrow> exceeded (incremented k this)"
  by (cases k) (auto simp: exceeded_def increment_def)

lemma append_exceeded:
  "exceeded this \<Longrightarrow> exceeded (receiver (append_part (k, v) this))"
  by (cases k) (auto simp: method_defs exceeded_def Let_def)

lemma append_in_range:
  "counters_in_range this \<Longrightarrow> counters_in_range (receiver (append_part (k, v) this))"
  by (cases k) (auto simp: method_defs counters_in_range_def Let_def)

lemma after_call_exceeded:
  "exceeded this \<Longrightarrow> exceeded (after_call c this)"
proof (cases c)
  case (Append p)
  obtain k v where "p = (k, v)" by (cases p)
  then show "exceeded this \<Longrightarrow> ?thesis"
    using append_exceeded [of this k v] by (simp add: Append)
next
  case (Combine l x r)
  then show "exceeded this \<Longrightarrow> ?thesis" by (simp add: exceeded_def combine_def)
next
  case Stringify
  then show "exceeded this \<Longrightarrow> ?thesis" by (simp add: exceeded_def stringify_def)
qed

lemma after_call_order_le:
  "selectorOrder this \<le> 6 \<Longrightarrow> selectorOrder (after_call c this) \<le> 6"
proof (cases c)
  case (Append p)
  obtain k v where "p = (k, v)" by (cases p)
  then show "selectorOrder this \<le> 6 \<Longrightarrow> ?thesis"
    using append_order_le [of this k v] by (simp add: Append)
next
  case (Combine l x r)
  then show "selectorOrder this \<le> 6 \<Longrightarrow> ?thesis" by (simp add: combine_def)
next
  case Stringify
  then show "selectorOrder this \<le> 6 \<Longrightarrow> ?thesis" by (simp add: stringify_def)
qed

lemma after_call_in_range:
  "counters_in_range this \<Longrightarrow> counters_in_range (after_call c this)"
proof (cases c)
  case (Append p)
  obtain k v where "p = (k, v)" by (cases p)
  then show "counters_in_range this \<Longrightarrow> ?thesis"
    using append_in_range [of this k v] by (simp add: Append)
next
  case (Combine l x r)
  then show "counters_in_range this \<Longrightarrow> ?thesis"
    by (simp add: counters_in_range_def combine_def)
next
  case Stringify
  then show "counters_in_range this \<Longrightarrow> ?thesis"
    by (simp add: counters_in_range_def stringify_def)
qed

lemma after_calls_exceeded:
  "exceeded this \<Longrightarrow> exceeded (after_calls cs this)"
  by (induction cs arbitrary: this) (simp_all add: after_call_exceeded)

lemma after_calls_order_le:
  "selectorOrder this \<le> 6 \<Longrightarrow> selectorOrder (after_calls cs this) \<le> 6"
  by (induction cs arbitrary: this) (simp_all add: after_call_order_le)

lemma after_calls_in_range:
  "counters_in_range this \<Longrightarrow> counters_in_range (after_calls cs this)"
  by (induction cs arbitrary: this) (simp_all add: after_call_in_range)

text \<open>Whatever is called on a new builder, its order is one of the values 0 to 6 and its
  counters are at most \<open>2 ^ 53\<close>.\<close>

lemma built_order_le: "selectorOrder (after_calls cs constructor) \<le> 6"
  by (rule after_calls_order_le) (simp add: constructor_def)

lemma built_counters_in_range: "counters_in_range (after_calls cs constructor)"
  by (rule after_calls_in_range) (simp add: constructor_def counters_in_range_def)

lemma exceeded_singleton_thrown:
  assumes "exceeded this" and "selectorOrder this \<le> 6" and "singleton k"
  shows "thrown (append_part (k, v) this) = Some DuplicatePartError"
  using singleton_thrown_iff [OF assms(3,2)] exceeded_incremented [OF assms(1)] by simp

text \<open>C5: on a builder as the methods can have left it (its order at most 6 and its counters
  at most \<open>2 ^ 53\<close>, which holds of every builder built from the constructor), a singleton
  append applies \<^verbatim>\<open>+= 1\<close> to the counter of its kind, which adds 1 to every counter below
  \<open>2 ^ 53\<close>, and throws \<open>DuplicatePartError\<close> exactly when one of the three singleton
  counters, whichever it is, then exceeds 1; the receiver is left with the incremented
  counter. After such a throw some counter exceeds 1, and every later singleton append on
  that builder, of any singleton kind and after any further calls on it, throws
  \<open>DuplicatePartError\<close> as well.\<close>

theorem singleton_append_checks_all_counters:
  assumes "singleton k" and "selectorOrder this \<le> 6" and "counters_in_range this"
  shows "counter k (receiver (append_part (k, v) this)) = increment (counter k this) \<and>
         (counter k this < 2 ^ 53 \<longrightarrow>
            counter k (receiver (append_part (k, v) this)) = counter k this + 1) \<and>
         (thrown (append_part (k, v) this) = Some DuplicatePartError \<longleftrightarrow>
            idCount (incremented k this) > 1 \<or> pseudoElementCount (incremented k this) > 1 \<or>
            elementCount (incremented k this) > 1) \<and>
         (thrown (append_part (k, v) this) = Some DuplicatePartError \<longrightarrow>
            receiver (append_part (k, v) this) = incremented k this \<and>
            exceeded (receiver (append_part (k, v) this)) \<and>
            (\<forall>cs k' v'. singleton k' \<longrightarrow>
               thrown (append_part (k', v') (after_calls cs (receiver (append_part (k, v) this)))) =
                 Some DuplicatePartError))"
proof -
  have inc: "counter k (receiver (append_part (k, v) this)) = increment (counter k this)"
    using singleton_counter_incremented [OF assms(1,2)] .
  have exact: "counter k (receiver (append_part (k, v) this)) = counter k this + 1"
    if "counter k this < 2 ^ 53"
    using inc increment_exact [OF that] by simp
  have iff: "thrown (append_part (k, v) this) = Some DuplicatePartError \<longleftrightarrow>
            idCount (incremented k this) > 1 \<or> pseudoElementCount (incremented k this) > 1 \<or>
            elementCount (incremented k this) > 1"
    using singleton_thrown_iff [OF assms(1,2), of v] by (simp add: exceeded_def)
  have later: "receiver (append_part (k, v) this) = incremented k this \<and>
            exceeded (receiver (append_part (k, v) this)) \<and>
            (\<forall>cs k' v'. singleton k' \<longrightarrow>
               thrown (append_part (k', v') (after_calls cs (receiver (append_part (k, v) this)))) =
                 Some DuplicatePartError)"
    if dup: "thrown (append_part (k, v) this) = Some DuplicatePartError"
  proof -
    have ex: "exceeded (incremented k this)"
      using dup singleton_thrown_iff [OF assms(1,2), of v] by simp
    have rcv: "receiver (append_part (k, v) this) = incremented k this"
      using singleton_thrown_receiver [OF assms(1,2) ex, of v] by simp
    have ord: "selectorOrder (receiver (append_part (k, v) this)) \<le> 6"
      using append_order_le [OF assms(2)] .
    have "thrown (append_part (k', v') (after_calls cs (receiver (append_part (k, v) this)))) =
            Some DuplicatePartError" if "singleton k'" for cs k' v'
      using exceeded_singleton_thrown [OF after_calls_exceeded after_calls_order_le [OF ord] that]
        ex rcv by simp
    then show ?thesis using ex rcv by simp
  qed
  show ?thesis using inc exact iff later by blast
qed

text \<open>A second type part leaves \<^verbatim>\<open>elementCount\<close> at 2; an id part appended to that
  builder then throws, although \<^verbatim>\<open>idCount\<close> is only 1.\<close>

theorem singleton_append_checks_all_counters_witness:
  "singleton KElement \<and>
   selectorOrder \<lparr>selectorChain = ''a'', idCount = 0, elementCount = 1,
     pseudoElementCount = 0, selectorOrder = 1\<rparr> \<le> 6 \<and>
   counters_in_range \<lparr>selectorChain = ''a'', idCount = 0, elementCount = 1,
     pseudoElementCount = 0, selectorOrder = 1\<rparr> \<and>
   append_part (KElement, ''b'')
     \<lparr>selectorChain = ''a'', idCount = 0, elementCount = 1, pseudoElementCount = 0,
      selectorOrder = 1\<rparr> =
     Inl (DuplicatePartError,
       \<lparr>selectorChain = ''a'', idCount = 0, elementCount = 2, pseudoElementCount = 0,
        selectorOrder = 1\<rparr>) \<and>
   thrown (append_part (KId, ''c'') (after_calls []
     \<lparr>selectorChain = ''a'', idCount = 0, elementCount = 2, pseudoElementCount = 0,
      selectorOrder = 1\<rparr>)) = Some DuplicatePartError \<and>
   receiver (append_part (KId, ''c'')
     \<lparr>selectorChain = ''a'', idCount = 0, elementCount = 2, pseudoElementCount = 0,
      selectorOrder = 1\<rparr>) =
     \<lparr>selectorChain = ''a'', idCount = 1, elementCount = 2, pseudoElementCount = 0,
      selectorOrder = 1\<rparr>"
proof -
  let ?a = "\<lparr>selectorChain = ''a'', idCount = 0, elementCount = 1, pseudoElementCount = 0,
      selectorOrder = 1\<rparr>"
  let ?b = "\<lparr>selectorChain = ''a'', idCount = 0, elementCount = 2, pseudoElementCount = 0,
      selectorOrder = 1\<rparr>"
  have k: "singleton KElement" by simp
  have o: "selectorOrder ?a \<le> 6" by simp
  have c: "counters_in_range ?a" by (simp add: counters_in_range_def)
  have thr: "append_part (KElement, ''b'') ?a = Inl (DuplicatePartError, ?b)"
    by (simp add: method_defs)
  have "thrown (append_part (KId, ''c'') (after_calls [] ?b)) = Some DuplicatePartError"
    using singleton_append_checks_all_counters [OF k o c, of "''b''"] thr
    by (simp del: after_calls.simps append_part.simps)
  moreover have "receiver (append_part (KId, ''c'') ?b) =
     \<lparr>selectorChain = ''a'', idCount = 1, elementCount = 2, pseudoElementCount = 0,
      selectorOrder = 1\<rparr>"
    by (simp add: method_defs)
  ultimately show ?thesis using thr c by simp
qed

text \<open>A counter that has reached \<open>2 ^ 53\<close> stays there, and the append still throws.\<close>

lemma saturated_counter_example:
  "append_part (KElement, ''b'')
     \<lparr>selectorChain = ''a'', idCount = 0, elementCount = 2 ^ 53, pseudoElementCount = 0,
      selectorOrder = 1\<rparr> =
     Inl (DuplicatePartError,
       \<lparr>selectorChain = ''a'', idCount = 0, elementCount = 2 ^ 53, pseudoElementCount = 0,
        selectorOrder = 1\<rparr>)"
  by (simp add: method_defs)

section \<open>stringify and combine on the receiver\<close>

text \<open>The two checks read the counters and the order only: two receivers that agree on them
  get the same verdict from every part append, and agree on them afterwards.\<close>

lemma append_reads_validation_state:
  assumes "validation_state a = validation_state b"
  shows "thrown (append_part (k, v) a) = thrown (append_part (k, v) b) \<and>
         validation_state (receiver (append_part (k, v) a)) =
           validation_state (receiver (append_part (k, v) b))"
  using assms by (cases k) (auto simp: method_defs validation_state_def Let_def)

text \<open>C7: \<^verbatim>\<open>stringify()\<close> returns the text of the builder and leaves it with the empty
  text and with the counters and the order it had. A second \<^verbatim>\<open>stringify()\<close> right after
  it returns the empty string. A part append made after it throws or returns exactly as it
  would have before it, and leaves the same counters and order.\<close>

theorem stringify_keeps_validation_state:
  "fst (stringify this) = selectorChain this \<and>
   selectorChain (snd (stringify this)) = [] \<and>
   idCount (snd (stringify this)) = idCount this \<and>
   elementCount (snd (stringify this)) = elementCount this \<and>
   pseudoElementCount (snd (stringify this)) = pseudoElementCount this \<and>
   selectorOrder (snd (stringify this)) = selectorOrder this \<and>
   fst (stringify (snd (stringify this))) = [] \<and>
   thrown (append_part (k, v) (snd (stringify this))) = thrown (append_part (k, v) this) \<and>
   validation_state (receiver (append_part (k, v) (snd (stringify this)))) =
     validation_state (receiver (append_part (k, v) this))"
proof -
  have "validation_state (snd (stringify this)) = validation_state this"
    by (simp add: stringify_def validation_state_def)
  from append_reads_validation_state [OF this, of k v] show ?thesis
    by (simp add: stringify_def)
qed

text \<open>After \<^verbatim>\<open>element('a')\<close> and \<^verbatim>\<open>stringify()\<close> the text is empty, and a type part is
  still a duplicate.\<close>

lemma stringify_example:
  "stringify \<lparr>selectorChain = ''a'', idCount = 0, elementCount = 1, pseudoElementCount = 0,
      selectorOrder = 1\<rparr> =
     (''a'', \<lparr>selectorChain = [], idCount = 0, elementCount = 1, pseudoElementCount = 0,
      selectorOrder = 1\<rparr>) \<and>
   thrown (append_part (KElement, ''b'')
     \<lparr>selectorChain = [], idCount = 0, elementCount = 1, pseudoElementCount = 0,
      selectorOrder = 1\<rparr>) = Some DuplicatePartError"
  by (simp add: stringify_def method_defs)

text \<open>C9: \<^verbatim>\<open>combine\<close> overwrites the text of the builder it is called on and nothing
  else: the three counters and the order keep their values, so a part append made after
  it throws or returns exactly as it would have before it, and leaves the same counters
  and order.\<close>

theorem combine_keeps_validation_state:
  "elementCount (combine this l c r) = elementCount this \<and>
   idCount (combine this l c r) = idCount this \<and>
   pseudoElementCount (combine this l c r) = pseudoElementCount this \<and>
   selectorOrder (combine this l c r) = selectorOrder this \<and>
   selectorChain (combine this l c r) = selectorChain l @ '' '' @ c @ '' '' @ selectorChain r \<and>
   thrown (append_part (k, v) (combine this l c r)) = thrown (append_part (k, v) this) \<and>
   validation_state (receiver (append_part (k, v) (combine this l c r))) =
     validation_state (receiver (append_part (k, v) this))"
proof -
  have "validation_state (combine this l c r) = validation_state this"
    by (simp add: combine_def validation_state_def)
  from append_reads_validation_state [OF this, of k v] show ?thesis
    by (simp add: combine_def)
qed

text \<open>A builder that holds a type part and is then the receiver of \<^verbatim>\<open>combine\<close> still
  refuses a type part.\<close>

lemma combine_example:
  "thrown (append_part (KElement, ''p'')
     (combine \<lparr>selectorChain = ''a'', idCount = 0, elementCount = 1, pseudoElementCount = 0,
        selectorOrder = 1\<rparr> constructor ''>'' constructor)) = Some DuplicatePartError"
  by (simp add: combine_def method_defs constructor_def)

section \<open>combine in the store\<close>

lemma combine_ref_Some:
  assumes "this < length h" and "l < length h" and "r < length h"
  shows "combine_ref h this l c r =
           Some (this, h[this := combine (h ! this) (h ! l) c (h ! r)])"
  using assms by (simp add: combine_ref_def)

lemma cssSelectorBuilder_combine_Some:
  assumes "l < length h" and "r < length h"
  shows "cssSelectorBuilder_combine h l c r =
           Some (length h, h @ [combine constructor (h ! l) c (h ! r)])"
  using assms
  by (simp add: cssSelectorBuilder_combine_def new_SelectorChain_def combine_ref_def nth_append)

text \<open>C4: called on a builder with two builders and any string as the combinator,
  \<^verbatim>\<open>combine\<close> returns the receiver, whose text is then the text the left builder had,
  a space, the combinator, a space, and the text the right builder had. The facade's
  \<^verbatim>\<open>combine\<close> does the same on a new builder.\<close>

theorem combine_text:
  assumes "l < length h" and "r < length h"
  shows "(this < length h \<longrightarrow>
            (\<exists>h'. combine_ref h this l c r = Some (this, h') \<and>
               selectorChain (h' ! this) =
                 selectorChain (h ! l) @ '' '' @ c @ '' '' @ selectorChain (h ! r))) \<and>
         (\<exists>h'. cssSelectorBuilder_combine h l c r = Some (length h, h') \<and>
            selectorChain (h' ! length h) =
              selectorChain (h ! l) @ '' '' @ c @ '' '' @ selectorChain (h ! r))"
proof -
  have "selectorChain (h[this := combine (h ! this) (h ! l) c (h ! r)] ! this) =
          selectorChain (h ! l) @ '' '' @ c @ '' '' @ selectorChain (h ! r)"
    if "this < length h"
    using that by (simp add: combine_def)
  moreover have "selectorChain ((h @ [combine constructor (h ! l) c (h ! r)]) ! length h) =
          selectorChain (h ! l) @ '' '' @ c @ '' '' @ selectorChain (h ! r)"
    by (simp add: combine_def)
  ultimately show ?thesis
    using combine_ref_Some [OF _ assms] cssSelectorBuilder_combine_Some [OF assms]
    by simp
qed

text \<open>The example: \<open>div#main\<close> and \<open>table#data\<close> combined with \<open>+\<close>.\<close>

theorem combine_text_witness:
  "(0::nat) < length
     [\<lparr>selectorChain = ''div#main'', idCount = 1, elementCount = 1, pseudoElementCount = 0,
       selectorOrder = 2\<rparr>,
      \<lparr>selectorChain = ''table#data'', idCount = 1, elementCount = 1, pseudoElementCount = 0,
       selectorOrder = 2\<rparr>] \<and>
   (1::nat) < length
     [\<lparr>selectorChain = ''div#main'', idCount = 1, elementCount = 1, pseudoElementCount = 0,
       selectorOrder = 2\<rparr>,
      \<lparr>selectorChain = ''table#data'', idCount = 1, elementCount = 1, pseudoElementCount = 0,
       selectorOrder = 2\<rparr>] \<and>
   cssSelectorBuilder_combine
     [\<lparr>selectorChain = ''div#main'', idCount = 1, elementCount = 1, pseudoElementCount = 0,
       selectorOrder = 2\<rparr>,
      \<lparr>selectorChain = ''table#data'', idCount = 1, elementCount = 1, pseudoElementCount = 0,
       selectorOrder = 2\<rparr>] 0 ''+'' 1 =
     Some (2,
       [\<lparr>selectorChain = ''div#main'', idCount = 1, elementCount = 1, pseudoElementCount = 0,
         selectorOrder = 2\<rparr>,
        \<lparr>selectorChain = ''table#data'', idCount = 1, elementCount = 1, pseudoElementCount = 0,
         selectorOrder = 2\<rparr>,
        \<lparr>selectorChain = ''div#main + table#data'', idCount = 0, elementCount = 0,
         pseudoElementCount = 0, selectorOrder = 0\<rparr>])"
proof -
  let ?h = "[\<lparr>selectorChain = ''div#main'', idCount = 1, elementCount = 1, pseudoElementCount = 0,
       selectorOrder = 2\<rparr>,
      \<lparr>selectorChain = ''table#data'', idCount = 1, elementCount = 1, pseudoElementCount = 0,
       selectorOrder = 2\<rparr>]"
  have l: "0 < length ?h" and r: "1 < length ?h" by simp_all
  have "cssSelectorBuilder_combine ?h 0 ''+'' 1 =
     Some (2, ?h @ [\<lparr>selectorChain = ''div#main + table#data'', idCount = 0, elementCount = 0,
         pseudoElementCount = 0, selectorOrder = 0\<rparr>])"
    using combine_text [OF l r, of 0 "''+''"]
    by (simp add: cssSelectorBuilder_combine_def new_SelectorChain_def combine_ref_def
        combine_def constructor_def)
  then show ?thesis by simp
qed

text \<open>C8, as the code has it: \<^verbatim>\<open>combine\<close> changes no counter and no order of any builder,
  and no text but the receiver's, which becomes the composed string. So a left or right
  builder that is not the receiver is the same object before and after the call, and one
  that is the receiver has its text overwritten. For the facade's \<^verbatim>\<open>combine\<close> the
  receiver is new: every builder there was, left and right among them, is unchanged.\<close>

theorem combine_frame:
  assumes "l < length h" and "r < length h"
  shows "(this < length h \<longrightarrow>
            (\<exists>h'. combine_ref h this l c r = Some (this, h') \<and>
               length h' = length h \<and>
               (\<forall>a < length h.
                  idCount (h' ! a) = idCount (h ! a) \<and>
                  elementCount (h' ! a) = elementCount (h ! a) \<and>
                  pseudoElementCount (h' ! a) = pseudoElementCount (h ! a) \<and>
                  selectorOrder (h' ! a) = selectorOrder (h ! a)) \<and>
               (\<forall>a < length h. a \<noteq> this \<longrightarrow> h' ! a = h ! a) \<and>
               selectorChain (h' ! this) =
                 selectorChain (h ! l) @ '' '' @ c @ '' '' @ selectorChain (h ! r) \<and>
               (l \<noteq> this \<longrightarrow> h' ! l = h ! l) \<and>
               (r \<noteq> this \<longrightarrow> h' ! r = h ! r) \<and>
               validation_state (h' ! l) = validation_state (h ! l) \<and>
               validation_state (h' ! r) = validation_state (h ! r))) \<and>
         (\<exists>h'. cssSelectorBuilder_combine h l c r = Some (length h, h') \<and>
            length h' = length h + 1 \<and>
            (\<forall>a < length h. h' ! a = h ! a) \<and>
            h' ! length h =
              constructor\<lparr>selectorChain :=
                selectorChain (h ! l) @ '' '' @ c @ '' '' @ selectorChain (h ! r)\<rparr> \<and>
            h' ! l = h ! l \<and> h' ! r = h ! r)"
proof -
  let ?new = "combine (h ! this) (h ! l) c (h ! r)"
  let ?h1 = "h[this := ?new]"
  let ?h2 = "h @ [combine constructor (h ! l) c (h ! r)]"
  have fields: "idCount (?h1 ! a) = idCount (h ! a) \<and>
                elementCount (?h1 ! a) = elementCount (h ! a) \<and>
                pseudoElementCount (?h1 ! a) = pseudoElementCount (h ! a) \<and>
                selectorOrder (?h1 ! a) = selectorOrder (h ! a)"
    if "this < length h" for a
    using that by (cases "a = this") (simp_all add: combine_def)
  have vs: "validation_state (?h1 ! a) = validation_state (h ! a)"
    if "this < length h" for a
    using fields [OF that, of a] by (simp add: validation_state_def)
  have other: "?h1 ! a = h ! a" if "a \<noteq> this" for a
    using that by simp
  have composed: "selectorChain (?h1 ! this) =
                selectorChain (h ! l) @ '' '' @ c @ '' '' @ selectorChain (h ! r)"
    if "this < length h"
    using that by (simp add: combine_def)
  have on_method: "\<exists>h'. combine_ref h this l c r = Some (this, h') \<and>
               length h' = length h \<and>
               (\<forall>a < length h.
                  idCount (h' ! a) = idCount (h ! a) \<and>
                  elementCount (h' ! a) = elementCount (h ! a) \<and>
                  pseudoElementCount (h' ! a) = pseudoElementCount (h ! a) \<and>
                  selectorOrder (h' ! a) = selectorOrder (h ! a)) \<and>
               (\<forall>a < length h. a \<noteq> this \<longrightarrow> h' ! a = h ! a) \<and>
               selectorChain (h' ! this) =
                 selectorChain (h ! l) @ '' '' @ c @ '' '' @ selectorChain (h ! r) \<and>
               (l \<noteq> this \<longrightarrow> h' ! l = h ! l) \<and>
               (r \<noteq> this \<longrightarrow> h' ! r = h ! r) \<and>
               validation_state (h' ! l) = validation_state (h ! l) \<and>
               validation_state (h' ! r) = validation_state (h ! r)"
    if t: "this < length h"
  proof (intro exI [of _ ?h1] conjI)
    show "combine_ref h this l c r = Some (this, ?h1)"
      using combine_ref_Some [OF t assms] .
    show "length ?h1 = length h" by simp
    show "\<forall>a < length h.
            idCount (?h1 ! a) = idCount (h ! a) \<and>
            elementCount (?h1 ! a) = elementCount (h ! a) \<and>
            pseudoElementCount (?h1 ! a) = pseudoElementCount (h ! a) \<and>
            selectorOrder (?h1 ! a) = selectorOrder (h ! a)"
      using fields [OF t] by blast
    show "\<forall>a < length h. a \<noteq> this \<longrightarrow> ?h1 ! a = h ! a"
      using other by blast
    show "selectorChain (?h1 ! this) =
            selectorChain (h ! l) @ '' '' @ c @ '' '' @ selectorChain (h ! r)"
      using composed [OF t] .
    show "l \<noteq> this \<longrightarrow> ?h1 ! l = h ! l" using other by blast
    show "r \<noteq> this \<longrightarrow> ?h1 ! r = h ! r" using other by blast
    show "validation_state (?h1 ! l) = validation_state (h ! l)" using vs [OF t] .
    show "validation_state (?h1 ! r) = validation_state (h ! r)" using vs [OF t] .
  qed
  have on_facade: "\<exists>h'. cssSelectorBuilder_combine h l c r = Some (length h, h') \<and>
            length h' = length h + 1 \<and>
            (\<forall>a < length h. h' ! a = h ! a) \<and>
            h' ! length h =
              constructor\<lparr>selectorChain :=
                selectorChain (h ! l) @ '' '' @ c @ '' '' @ selectorChain (h ! r)\<rparr> \<and>
            h' ! l = h ! l \<and> h' ! r = h ! r"
  proof (intro exI [of _ ?h2] conjI)
    show "cssSelectorBuilder_combine h l c r = Some (length h, ?h2)"
      using cssSelectorBuilder_combine_Some [OF assms] .
    show "length ?h2 = length h + 1" by simp
    show "\<forall>a < length h. ?h2 ! a = h ! a" by (simp add: nth_append)
    show "?h2 ! length h =
            constructor\<lparr>selectorChain :=
              selectorChain (h ! l) @ '' '' @ c @ '' '' @ selectorChain (h ! r)\<rparr>"
      by (simp add: combine_def)
    show "?h2 ! l = h ! l" using assms(1) by (simp add: nth_append)
    show "?h2 ! r = h ! r" using assms(2) by (simp add: nth_append)
  qed
  show ?thesis using on_method on_facade by blast
qed

text \<open>Called on a third builder, \<^verbatim>\<open>combine\<close> leaves the left and the right builder as
  they were; so does the facade's \<^verbatim>\<open>combine\<close>.\<close>

theorem combine_frame_witness:
  "(0::nat) < length
     [\<lparr>selectorChain = ''div'', idCount = 0, elementCount = 1, pseudoElementCount = 0,
       selectorOrder = 1\<rparr>,
      \<lparr>selectorChain = ''#x'', idCount = 1, elementCount = 0, pseudoElementCount = 0,
       selectorOrder = 2\<rparr>,
      \<lparr>selectorChain = ''.c'', idCount = 0, elementCount = 0, pseudoElementCount = 0,
       selectorOrder = 3\<rparr>] \<and>
   (1::nat) < length
     [\<lparr>selectorChain = ''div'', idCount = 0, elementCount = 1, pseudoElementCount = 0,
       selectorOrder = 1\<rparr>,
      \<lparr>selectorChain = ''#x'', idCount = 1, elementCount = 0, pseudoElementCount = 0,
       selectorOrder = 2\<rparr>,
      \<lparr>selectorChain = ''.c'', idCount = 0, elementCount = 0, pseudoElementCount = 0,
       selectorOrder = 3\<rparr>] \<and>
   (2::nat) < length
     [\<lparr>selectorChain = ''div'', idCount = 0, elementCount = 1, pseudoElementCount = 0,
       selectorOrder = 1\<rparr>,
      \<lparr>selectorChain = ''#x'', idCount = 1, elementCount = 0, pseudoElementCount = 0,
       selectorOrder = 2\<rparr>,
      \<lparr>selectorChain = ''.c'', idCount = 0, elementCount = 0, pseudoElementCount = 0,
       selectorOrder = 3\<rparr>] \<and>
   combine_ref
     [\<lparr>selectorChain = ''div'', idCount = 0, elementCount = 1, pseudoElementCount = 0,
       selectorOrder = 1\<rparr>,
      \<lparr>selectorChain = ''#x'', idCount = 1, elementCount = 0, pseudoElementCount = 0,
       selectorOrder = 2\<rparr>,
      \<lparr>selectorChain = ''.c'', idCount = 0, elementCount = 0, pseudoElementCount = 0,
       selectorOrder = 3\<rparr>] 2 0 ''>'' 1 =
     Some (2,
       [\<lparr>selectorChain = ''div'', idCount = 0, elementCount = 1, pseudoElementCount = 0,
         selectorOrder = 1\<rparr>,
        \<lparr>selectorChain = ''#x'', idCount = 1, elementCount = 0, pseudoElementCount = 0,
         selectorOrder = 2\<rparr>,
        \<lparr>selectorChain = ''div > #x'', idCount = 0, elementCount = 0, pseudoElementCount = 0,
         selectorOrder = 3\<rparr>]) \<and>
   cssSelectorBuilder_combine
     [\<lparr>selectorChain = ''div'', idCount = 0, elementCount = 1, pseudoElementCount = 0,
       selectorOrder = 1\<rparr>,
      \<lparr>selectorChain = ''#x'', idCount = 1, elementCount = 0, pseudoElementCount = 0,
       selectorOrder = 2\<rparr>,
      \<lparr>selectorChain = ''.c'', idCount = 0, elementCount = 0, pseudoElementCount = 0,
       selectorOrder = 3\<rparr>] 0 ''>'' 1 =
     Some (3,
       [\<lparr>selectorChain = ''div'', idCount = 0, elementCount = 1, pseudoElementCount = 0,
         selectorOrder = 1\<rparr>,
        \<lparr>selectorChain = ''#x'', idCount = 1, elementCount = 0, pseudoElementCount = 0,
         selectorOrder = 2\<rparr>,
        \<lparr>selectorChain = ''.c'', idCount = 0, elementCount = 0, pseudoElementCount = 0,
         selectorOrder = 3\<rparr>,
        \<lparr>selectorChain = ''div > #x'', idCount = 0, elementCount = 0, pseudoElementCount = 0,
         selectorOrder = 0\<rparr>])"
proof -
  let ?h = "[\<lparr>selectorChain = ''div'', idCount = 0, elementCount = 1, pseudoElementCount = 0,
       selectorOrder = 1\<rparr>,
      \<lparr>selectorChain = ''#x'', idCount = 1, elementCount = 0, pseudoElementCount = 0,
       selectorOrder = 2\<rparr>,
      \<lparr>selectorChain = ''.c'', idCount = 0, elementCount = 0, pseudoElementCount = 0,
       selectorOrder = 3\<rparr>]"
  have l: "0 < length ?h" and r: "1 < length ?h" and t: "2 < length ?h" by simp_all
  show ?thesis
    using combine_frame [OF l r, of 2 "''>''"]
    by (simp add: combine_ref_def cssSelectorBuilder_combine_def new_SelectorChain_def
        combine_def constructor_def)
qed

text \<open>Without the condition on the receiver the statement fails: with
  \<^verbatim>\<open>b = cssSelectorBuilder.element('div')\<close>, the call \<^verbatim>\<open>b.combine(b, '+', b)\<close> leaves the
  left (and right) builder \<^verbatim>\<open>b\<close> with the text \<open>div + div\<close>.\<close>

theorem combine_frame_counterexample:
  "cssSelectorBuilder_element ''div'' =
     Inr \<lparr>selectorChain = ''div'', idCount = 0, elementCount = 1, pseudoElementCount = 0,
          selectorOrder = 1\<rparr> \<and>
   combine_ref
     [\<lparr>selectorChain = ''div'', idCount = 0, elementCount = 1, pseudoElementCount = 0,
       selectorOrder = 1\<rparr>] 0 0 ''+'' 0 =
     Some (0,
       [\<lparr>selectorChain = ''div + div'', idCount = 0, elementCount = 1, pseudoElementCount = 0,
         selectorOrder = 1\<rparr>]) \<and>
   selectorChain
     ([\<lparr>selectorChain = ''div + div'', idCount = 0, elementCount = 1, pseudoElementCount = 0,
        selectorOrder = 1\<rparr>] ! 0) \<noteq>
   selectorChain
     ([\<lparr>selectorChain = ''div'', idCount = 0, elementCount = 1, pseudoElementCount = 0,
        selectorOrder = 1\<rparr>] ! 0)"
  by (simp add: cssSelectorBuilder_element_def method_defs constructor_def combine_ref_def
      combine_def)

end
